theory Spec2Isabelle
  imports Main "HOL-Library.Word"
begin

section \<open>Data model\<close>

text \<open>
  The package \<open>errors\<close> (Go) defines one struct, \<open>Error\<close>, with the fields
  \<open>Description\<close>, \<open>error\<close> (the wrapped cause) and \<open>stack\<close> (a pointer to a slice of
  program counters), and uses it only through pointers \<open>*Error\<close>.

  A value of Go's interface type \<open>error\<close> is either the nil interface or a pointer of some
  dynamic type. The model knows three dynamic types:
  \<^item> \<open>*errors.errorString\<close> (what \<open>errors.New\<close> and \<open>fmt.Errorf\<close> without \<open>%w\<close> return):
    a message, no \<open>Unwrap\<close>, \<open>Is\<close>, \<open>As\<close> or \<open>Format\<close> method;
  \<^item> \<open>*fmt.wrapError\<close> (what \<open>fmt.Errorf\<close> with one \<open>%w\<close> returns): a message and the
    wrapped error, returned by its \<open>Unwrap\<close>;
  \<^item> \<open>*Error\<close> of this package, which may be the nil pointer stored in a non-nil interface.

  No function of the package writes to an \<open>Error\<close> after allocating it, so a pointer is
  modelled by the address of the allocation together with the contents found there.
  Go's \<open>==\<close> on interface values compares the dynamic type and the address only
  (\<open>iface_eq\<close>).
\<close>

type_synonym addr = nat

type_synonym uintptr = "64 word"

type_synonym Stack = "uintptr list"

datatype error =
    nil
  | ErrorString addr string
  | WrapError addr string error
  | OfError ErrorP
and ErrorP =
    NilP
  | Ptr addr string error "Stack option"

text \<open>
  \<open>Ptr a d c st\<close> is a non-nil \<open>*Error\<close>: the allocation at address \<open>a\<close> holds
  \<open>Description = d\<close>, \<open>error = c\<close> and \<open>stack = st\<close> (\<open>None\<close> is the nil \<open>*Stack\<close>).
\<close>

text \<open>
  A method call through a nil pointer that reads a field, and a method call on the nil
  interface, panic with a nil pointer dereference. A function that can panic returns
  \<open>panic + 'a\<close>.
\<close>

datatype panic = NilDereference

text \<open>The operands of a variadic \<open>args ...any\<close>.\<close>

datatype any = AnyInt int | AnyString string | AnyError error

text \<open>A slice of strings is nil or a (possibly empty) sequence.\<close>

datatype strings = NilSlice | Slice "string list"

text \<open>The fields of \<open>runtime.Frame\<close> that the package reads.\<close>

record Frame =
  Function :: string
  File :: string
  Line :: int

definition zeroFrame :: Frame where
  "zeroFrame = \<lparr>Function = [], File = [], Line = 0\<rparr>"

section \<open>The standard library functions the package calls\<close>

text \<open>Go's \<open>==\<close> on two values of the interface type \<open>error\<close>.\<close>

fun iface_eq :: "error \<Rightarrow> error \<Rightarrow> bool" where
  "iface_eq nil nil = True"
| "iface_eq (ErrorString a s) (ErrorString b t) = (a = b)"
| "iface_eq (WrapError a s e) (WrapError b t f) = (a = b)"
| "iface_eq (OfError NilP) (OfError NilP) = True"
| "iface_eq (OfError (Ptr a d c st)) (OfError (Ptr b d' c' st')) = (a = b)"
| "iface_eq x y = False"

text \<open>The method \<open>(*Error).Unwrap\<close>: \<open>return e.error\<close>.\<close>

fun Error_Unwrap :: "ErrorP \<Rightarrow> panic + error" where
  "Error_Unwrap NilP = Inl NilDereference"
| "Error_Unwrap (Ptr a d c st) = Inr c"

text \<open>
  \<open>errors.Unwrap\<close>: calls the \<open>Unwrap() error\<close> method when the dynamic type has one, and
  returns nil otherwise (also for the nil interface).
\<close>

fun Unwrap :: "error \<Rightarrow> panic + error" where
  "Unwrap nil = Inr nil"
| "Unwrap (ErrorString a s) = Inr nil"
| "Unwrap (WrapError a msg e) = Inr e"
| "Unwrap (OfError p) = Error_Unwrap p"

text \<open>
  \<open>errors.Is\<close>. All dynamic types of the model are pointers, hence comparable, and none
  has an \<open>Is\<close> method: the loop compares with \<open>==\<close> and follows \<open>Unwrap\<close>.
\<close>

fun is_loop :: "error \<Rightarrow> error \<Rightarrow> panic + bool" where
  "is_loop (WrapError a msg e) target =
     (if iface_eq (WrapError a msg e) target then Inr True
      else if e = nil then Inr False
      else is_loop e target)"
| "is_loop (OfError (Ptr a d c st)) target =
     (if iface_eq (OfError (Ptr a d c st)) target then Inr True
      else if c = nil then Inr False
      else is_loop c target)"
| "is_loop (OfError NilP) target =
     (if iface_eq (OfError NilP) target then Inr True
      else Inl NilDereference)"
| "is_loop err target = (if iface_eq err target then Inr True else Inr False)"

definition Is :: "error \<Rightarrow> error \<Rightarrow> panic + bool" where
  "Is err target =
     (if err = nil \<or> target = nil then Inr (iface_eq err target)
      else is_loop err target)"

text \<open>
  \<open>errors.As\<close> with a target of type \<open>**Error\<close>: the first link of the chain whose
  dynamic type is \<open>*Error\<close> is stored in the target. The result is the returned flag and
  the target's value after the call.
\<close>

fun as_loop :: "error \<Rightarrow> ErrorP \<Rightarrow> bool \<times> ErrorP" where
  "as_loop (OfError p) target = (True, p)"
| "as_loop (WrapError a msg e) target =
     (if e = nil then (False, target) else as_loop e target)"
| "as_loop err target = (False, target)"

definition As :: "error \<Rightarrow> ErrorP \<Rightarrow> bool \<times> ErrorP" where
  "As err target = (if err = nil then (False, target) else as_loop err target)"

text \<open>The verb \<open>%d\<close> of package \<open>fmt\<close> on an \<open>int\<close>: decimal digits, a minus sign first.\<close>

fun digits :: "nat \<Rightarrow> string" where
  "digits n =
     (if n < 10 then [''0123456789'' ! n]
      else digits (n div 10) @ [''0123456789'' ! (n mod 10)])"

declare digits.simps [simp del]

definition itoa :: "int \<Rightarrow> string" where
  "itoa i = (if i < 0 then CHR ''-'' # digits (nat (- i)) else digits (nat i))"

text \<open>
  \<open>Frames.Next\<close> of package \<open>runtime\<close>, on the sequence of frames still to be returned:
  the next frame (the zero \<open>Frame\<close> when none is left), whether another one follows, and
  the rest.
\<close>

fun Next :: "Frame list \<Rightarrow> Frame \<times> bool \<times> Frame list" where
  "Next [] = (zeroFrame, False, [])"
| "Next (f # fs) = (f, fs \<noteq> [], fs)"

section \<open>errorWithMessage.go\<close>

text \<open>
  \<open>Error()\<close>, called on an interface value (\<open>error_Error\<close>, dispatching on the dynamic
  type) and the method of \<open>*Error\<close> (\<open>Error_Error\<close>):
  \<^verbatim>\<open>
  if e.error == nil { return e.Description }
  return fmt.Sprintf("%s: %s", e.Description, e.error.Error())
  \<close>
\<close>

fun error_Error :: "error \<Rightarrow> panic + string"
  and Error_Error :: "ErrorP \<Rightarrow> panic + string" where
  "error_Error nil = Inl NilDereference"
| "error_Error (ErrorString a s) = Inr s"
| "error_Error (WrapError a msg e) = Inr msg"
| "error_Error (OfError p) = Error_Error p"
| "Error_Error NilP = Inl NilDereference"
| "Error_Error (Ptr a d c st) =
     (if c = nil then Inr d
      else (case error_Error c of
              Inl p \<Rightarrow> Inl p
            | Inr m \<Rightarrow> Inr (d @ '': '' @ m)))"

text \<open>
  \<open>Message()\<close>:
  \<^verbatim>\<open>
  if e.Description == "" { return e.error.Error() }
  return e.Description
  \<close>
\<close>

fun Error_Message :: "ErrorP \<Rightarrow> panic + string" where
  "Error_Message NilP = Inl NilDereference"
| "Error_Message (Ptr a d c st) = (if d = [] then error_Error c else Inr d)"

text \<open>
  The number of links of a chain, the measure by which the loops over a chain terminate.
\<close>

fun chain_length :: "error \<Rightarrow> nat" where
  "chain_length nil = 0"
| "chain_length (ErrorString a s) = 1"
| "chain_length (WrapError a msg e) = Suc (chain_length e)"
| "chain_length (OfError NilP) = 1"
| "chain_length (OfError (Ptr a d c st)) = Suc (chain_length c)"

text \<open>
  The loop of \<open>GetOriginalErrorMessage\<close>,
  \<^verbatim>\<open>for err := Unwrap(e.error); err != nil; err = Unwrap(err) { originalErr = err }\<close>,
  from the current \<open>err\<close> and \<open>originalErr\<close>.
\<close>

function original_loop :: "error \<Rightarrow> error \<Rightarrow> panic + error" where
  "original_loop err originalErr =
     (if err = nil then Inr originalErr
      else (case Unwrap err of
              Inl p \<Rightarrow> Inl p
            | Inr next_err \<Rightarrow> original_loop next_err err))"
  by pat_completeness auto
termination
proof (relation "measure (\<lambda>(err, originalErr). chain_length err)")
  show "wf (measure (\<lambda>(err, originalErr). chain_length err))" by simp
next
  fix err originalErr :: error and next_err :: error
  assume "err \<noteq> nil" and "Unwrap err = Inr next_err"
  then have "chain_length next_err < chain_length err"
    by (induction err rule: chain_length.induct) auto
  then show "((next_err, err), err, originalErr)
      \<in> measure (\<lambda>(err, originalErr). chain_length err)"
    by simp
qed

declare original_loop.simps [simp del]

fun Error_GetOriginalErrorMessage :: "ErrorP \<Rightarrow> panic + string" where
  "Error_GetOriginalErrorMessage NilP = Inl NilDereference"
| "Error_GetOriginalErrorMessage (Ptr a d c st) =
     (case Unwrap c of
        Inl p \<Rightarrow> Inl p
      | Inr first \<Rightarrow>
          (case original_loop first nil of
             Inl p \<Rightarrow> Inl p
           | Inr originalErr \<Rightarrow>
               if d = [] then
                 (if originalErr \<noteq> nil then error_Error originalErr
                  else error_Error c)
               else
                 (let errToUse = (if originalErr \<noteq> nil then originalErr else c)
                  in (case error_Error errToUse of
                        Inl p \<Rightarrow> Inl p
                      | Inr m \<Rightarrow> Inr (d @ '': '' @ m)))))"

text \<open>
  \<open>callers()\<close>: \<open>runtime.Callers(3, pcs[:])\<close> into an array of 32 entries. The argument
  is the calling goroutine's stack as \<open>runtime.Callers\<close> numbers it, innermost first:
  entry 0 for \<open>runtime.Callers\<close> itself, 1 for \<open>callers\<close>, 2 for the function of this
  package that called \<open>callers\<close>, 3 for its caller.
\<close>

definition callers :: "uintptr list \<Rightarrow> Stack" where
  "callers goroutine = take 32 (drop 3 goroutine)"

text \<open>
  \<open>(*Error).Wrap\<close>. An allocation \<open>&Error{...}\<close> takes the next free address \<open>h\<close>; the
  functions that allocate return the next free address after the call.
  \<^verbatim>\<open>
  if err == nil || e.Description == "" { return nil }
  return &Error{error: err, Description: e.Description, stack: callers()}
  \<close>
\<close>

definition Error_Wrap ::
  "ErrorP \<Rightarrow> error \<Rightarrow> uintptr list \<Rightarrow> addr \<Rightarrow> panic + (error \<times> addr)" where
  "Error_Wrap e err goroutine h =
     (if err = nil then Inr (nil, h)
      else (case e of
              NilP \<Rightarrow> Inl NilDereference
            | Ptr a d c st \<Rightarrow>
                if d = [] then Inr (nil, h)
                else Inr (OfError (Ptr h d err (Some (callers goroutine))), Suc h)))"

text \<open>
  \<open>(*Error).Wrapf\<close>. What \<open>fmt.Errorf\<close> builds from a format that is not fixed in the
  source depends on the whole of package \<open>fmt\<close>; it is the parameter \<open>Errorf\<close>, from the
  format, the operands and the next free address.
  \<^verbatim>\<open>
  if err == nil || e.Description == "" { return nil }
  er := &Error{error: err, Description: e.Description, stack: callers()}
  return fmt.Errorf(format+" :%w", er)
  \<close>
\<close>

definition Error_Wrapf ::
  "(string \<Rightarrow> any list \<Rightarrow> addr \<Rightarrow> error \<times> addr) \<Rightarrow>
   ErrorP \<Rightarrow> string \<Rightarrow> error \<Rightarrow> uintptr list \<Rightarrow> addr \<Rightarrow> panic + (error \<times> addr)" where
  "Error_Wrapf Errorf e format err goroutine h =
     (if err = nil then Inr (nil, h)
      else (case e of
              NilP \<Rightarrow> Inl NilDereference
            | Ptr a d c st \<Rightarrow>
                if d = [] then Inr (nil, h)
                else (let er = Ptr h d err (Some (callers goroutine))
                      in Inr (Errorf (format @ '' :%w'') [AnyError (OfError er)] (Suc h)))))"

text \<open>
  The loop of \<open>GetCallStack\<close>, from the frames still to come and the slice built so far:
  \<^verbatim>\<open>
  for {
      frame, more := frames.Next()
      if frame.Function == "unknown" { break }
      callStackFrames = append(callStackFrames,
          fmt.Sprintf("%s\n\t%s:%d", frame.Function, frame.File, frame.Line))
      if !more { break }
  }
  \<close>
\<close>

definition formatFrame :: "Frame \<Rightarrow> string" where
  "formatFrame frame =
     Function frame @ [CHR 0x0A, CHR 0x09] @ File frame @ '':'' @ itoa (Line frame)"

function frames_loop :: "Frame list \<Rightarrow> string list \<Rightarrow> string list" where
  "frames_loop frames callStackFrames =
     (case Next frames of
        (frame, has_more, rest) \<Rightarrow>
          if Function frame = ''unknown'' then callStackFrames
          else (let callStackFrames' = callStackFrames @ [formatFrame frame]
                in if \<not> has_more then callStackFrames'
                   else frames_loop rest callStackFrames'))"
  by pat_completeness auto
termination
proof (relation "measure (\<lambda>(frames, callStackFrames). length frames)")
  show "wf (measure (\<lambda>(frames, callStackFrames). length frames))" by simp
next
  fix frames :: "Frame list" and callStackFrames x :: "string list"
    and frame :: Frame and y :: "bool \<times> Frame list" and has_more :: bool and rest :: "Frame list"
  assume "(frame, y) = Next frames" and "(has_more, rest) = y"
  then have "Next frames = (frame, has_more, rest)" by simp
  then have "length rest < length frames \<or> frames = []"
    by (cases frames) auto
  moreover assume "\<not> \<not> has_more"
  with \<open>Next frames = (frame, has_more, rest)\<close> have "frames \<noteq> []"
    by (cases frames) auto
  ultimately show "((rest, x), frames, callStackFrames)
      \<in> measure (\<lambda>(frames, callStackFrames). length frames)"
    by simp
qed

declare frames_loop.simps [simp del]

text \<open>
  \<open>GetCallStack\<close>. \<open>runtime.CallersFrames\<close>, which resolves program counters with the
  running binary's symbol table, is the parameter \<open>CallersFrames\<close>: the frames that the
  iterator over a slice of program counters returns, in order.
  \<^verbatim>\<open>
  if e == nil { return nil }
  if e.stack == nil { return nil }
  callStackFrames := make([]string, 0, 32)
  frames := runtime.CallersFrames(*e.stack)
  \<close>
\<close>

fun Error_GetCallStack :: "(uintptr list \<Rightarrow> Frame list) \<Rightarrow> ErrorP \<Rightarrow> strings" where
  "Error_GetCallStack CallersFrames NilP = NilSlice"
| "Error_GetCallStack CallersFrames (Ptr a d c None) = NilSlice"
| "Error_GetCallStack CallersFrames (Ptr a d c (Some pcs)) =
     Slice (frames_loop (CallersFrames pcs) [])"

section \<open>errors.go\<close>

text \<open>\<open>New\<close>, \<open>NewWithStack\<close> and \<open>Newf\<close> (the last returns the \<open>*Error\<close> itself).\<close>

definition New :: "string \<Rightarrow> addr \<Rightarrow> error \<times> addr" where
  "New description h = (OfError (Ptr h description nil None), Suc h)"


definition Newf ::
  "(string \<Rightarrow> any list \<Rightarrow> string) \<Rightarrow> string \<Rightarrow> any list \<Rightarrow> addr \<Rightarrow> ErrorP \<times> addr" where
  "Newf Sprintf formatedDescription args h =
     (Ptr h (Sprintf formatedDescription args) nil None, Suc h)"

text \<open>
  How package \<open>fmt\<close> prints an operand of type \<open>error\<close> under \<open>%v\<close>. \<open>*Error\<close> has a
  \<open>Format\<close> method, which \<open>fmt\<close> prefers to \<open>Error()\<close>: it writes the \<open>Description\<close>
  alone. Through a nil \<open>*Error\<close> that method panics, and \<open>fmt\<close> recovers and prints
  \<open><nil>\<close>, as it does for the nil interface. The other dynamic types print their
  \<open>Error()\<close>.
\<close>

fun fmt_v :: "error \<Rightarrow> string" where
  "fmt_v nil = ''<nil>''"
| "fmt_v (ErrorString a s) = s"
| "fmt_v (WrapError a msg e) = msg"
| "fmt_v (OfError NilP) = ''<nil>''"
| "fmt_v (OfError (Ptr a d c st)) = d"

text \<open>
  \<open>fmt.Errorf("%w: %v", wrappingErr, originalErr)\<close>. A non-nil \<open>%w\<close> operand is printed
  as under \<open>%v\<close> and becomes what the new \<open>*fmt.wrapError\<close> unwraps to; the nil
  interface under \<open>%w\<close> is a bad operand, printed \<open>%!w(<nil>)\<close>, and the result is then
  a plain \<open>*errors.errorString\<close>.
\<close>

definition Errorf_w_v :: "error \<Rightarrow> error \<Rightarrow> addr \<Rightarrow> error \<times> addr" where
  "Errorf_w_v wrappingErr originalErr h =
     (if wrappingErr = nil
      then (ErrorString h (''%!w(<nil>)'' @ '': '' @ fmt_v originalErr), Suc h)
      else (WrapError h (fmt_v wrappingErr @ '': '' @ fmt_v originalErr) wrappingErr, Suc h))"

text \<open>
  \<open>Wrap\<close>, \<open>Wrapf\<close>, \<open>WrapfWithCustomErr\<close>, \<open>WrapWithCustomErr\<close> and \<open>AddCustomCallStack\<close>.
  \<open>fmt.Sprintf\<close> on a format and operands of the caller's is the parameter \<open>Sprintf\<close>.
\<close>

definition Wrap :: "error \<Rightarrow> string \<Rightarrow> uintptr list \<Rightarrow> addr \<Rightarrow> error \<times> addr" where
  "Wrap err description goroutine h =
     (if err = nil then (nil, h)
      else (OfError (Ptr h description err (Some (callers goroutine))), Suc h))"

definition Wrapf ::
  "(string \<Rightarrow> any list \<Rightarrow> string) \<Rightarrow>
   error \<Rightarrow> string \<Rightarrow> any list \<Rightarrow> uintptr list \<Rightarrow> addr \<Rightarrow> error \<times> addr" where
  "Wrapf Sprintf err format args goroutine h =
     (if err = nil then (nil, h)
      else (OfError (Ptr h (Sprintf format args) err (Some (callers goroutine))), Suc h))"

definition WrapfWithCustomErr ::
  "(string \<Rightarrow> any list \<Rightarrow> string) \<Rightarrow>
   error \<Rightarrow> error \<Rightarrow> string \<Rightarrow> any list \<Rightarrow> uintptr list \<Rightarrow> addr \<Rightarrow> error \<times> addr" where
  "WrapfWithCustomErr Sprintf originalErr wrappingErr format args goroutine h =
     (if originalErr = nil then (nil, h)
      else (case Errorf_w_v wrappingErr originalErr h of
              (composite, h') \<Rightarrow>
                (OfError (Ptr h' (Sprintf format args) composite (Some (callers goroutine))),
                 Suc h')))"

definition WrapWithCustomErr ::
  "error \<Rightarrow> error \<Rightarrow> uintptr list \<Rightarrow> addr \<Rightarrow> error \<times> addr" where
  "WrapWithCustomErr originalErr wrappingErr goroutine h =
     (if originalErr = nil then (nil, h)
      else (case Errorf_w_v wrappingErr originalErr h of
              (composite, h') \<Rightarrow>
                (OfError (Ptr h' [] composite (Some (callers goroutine))), Suc h')))"

definition AddCustomCallStack ::
  "error \<Rightarrow> Stack option \<Rightarrow> addr \<Rightarrow> panic + (error \<times> addr)" where
  "AddCustomCallStack err callStack h =
     (if err = nil then Inr (nil, h)
      else (case error_Error err of
              Inl p \<Rightarrow> Inl p
            | Inr description \<Rightarrow> Inr (OfError (Ptr h description err callStack), Suc h)))"

text \<open>
  \<open>FindOriginalErrorWithStack\<close>: the loop, from \<open>current\<close> and
  \<open>lastFrameworkErrWithStack\<close>.
  \<^verbatim>\<open>
  for current != nil {
      var frameworkErr *Error
      if As(current, &frameworkErr) && frameworkErr.GetCallStack() != nil {
          lastFrameworkErrWithStack = frameworkErr
      }
      current = Unwrap(current)
  }
  return lastFrameworkErrWithStack
  \<close>
\<close>

function original_with_stack_loop ::
  "(uintptr list \<Rightarrow> Frame list) \<Rightarrow> error \<Rightarrow> ErrorP \<Rightarrow> panic + ErrorP" where
  "original_with_stack_loop CallersFrames current lastFrameworkErrWithStack =
     (if current = nil then Inr lastFrameworkErrWithStack
      else (case As current NilP of
              (found, frameworkErr) \<Rightarrow>
                (case Unwrap current of
                   Inl p \<Rightarrow> Inl p
                 | Inr next_err \<Rightarrow>
                     original_with_stack_loop CallersFrames next_err
                       (if found \<and> Error_GetCallStack CallersFrames frameworkErr \<noteq> NilSlice
                        then frameworkErr
                        else lastFrameworkErrWithStack))))"
  by pat_completeness auto
termination
proof (relation "measure (\<lambda>(CallersFrames, current, lastErr). chain_length current)")
  show "wf (measure (\<lambda>(CallersFrames, current, lastErr). chain_length current))" by simp
next
  fix CallersFrames :: "uintptr list \<Rightarrow> Frame list"
    and current next_err :: error and lastFrameworkErrWithStack frameworkErr :: ErrorP
    and found :: bool
  assume "current \<noteq> nil" and "Unwrap current = Inr next_err"
  then have "chain_length next_err < chain_length current"
    by (induction current rule: chain_length.induct) auto
  then show "((CallersFrames, next_err,
        if found \<and> Error_GetCallStack CallersFrames frameworkErr \<noteq> NilSlice
        then frameworkErr else lastFrameworkErrWithStack),
       CallersFrames, current, lastFrameworkErrWithStack)
      \<in> measure (\<lambda>(CallersFrames, current, lastErr). chain_length current)"
    by simp
qed

declare original_with_stack_loop.simps [simp del]

definition FindOriginalErrorWithStack ::
  "(uintptr list \<Rightarrow> Frame list) \<Rightarrow> error \<Rightarrow> panic + ErrorP" where
  "FindOriginalErrorWithStack CallersFrames err =
     original_with_stack_loop CallersFrames err NilP"

text \<open>
  \<open>FindFirstErrorWithStack\<close>; the \<open>*Error\<close> found is returned as an \<open>error\<close>.
  \<^verbatim>\<open>
  for current != nil {
      var frameworkErr *Error
      if As(current, &frameworkErr) { return frameworkErr }
      current = Unwrap(current)
  }
  return current
  \<close>
\<close>

function FindFirstErrorWithStack :: "error \<Rightarrow> panic + error" where
  "FindFirstErrorWithStack current =
     (if current = nil then Inr current
      else (case As current NilP of
              (found, frameworkErr) \<Rightarrow>
                if found then Inr (OfError frameworkErr)
                else (case Unwrap current of
                        Inl p \<Rightarrow> Inl p
                      | Inr next_err \<Rightarrow> FindFirstErrorWithStack next_err)))"
  by pat_completeness auto
termination
proof (relation "measure chain_length")
  show "wf (measure chain_length)" by simp
next
  fix current next_err :: error
  assume "current \<noteq> nil" and "Unwrap current = Inr next_err"
  then have "chain_length next_err < chain_length current"
    by (induction current rule: chain_length.induct) auto
  then show "(next_err, current) \<in> measure chain_length" by simp
qed

declare FindFirstErrorWithStack.simps [simp del]

section \<open>The predefined errors\<close>

text \<open>
  The package-level variables are initialised in the order of their declarations, each by
  a call of \<open>New\<close>: ten allocations, at the addresses 0 to 9.
\<close>

definition ErrBadRequest :: error where
  "ErrBadRequest = fst (New ''bad request'' 0)"

definition ErrUnauthorized :: error where
  "ErrUnauthorized = fst (New ''user unauthorized'' 1)"

definition ErrRegistrationRequired :: error where
  "ErrRegistrationRequired = fst (New ''registration required'' 2)"

definition ErrPaymentError :: error where
  "ErrPaymentError = fst (New ''payment error'' 3)"

definition ErrForbiddenAction :: error where
  "ErrForbiddenAction = fst (New ''forbidden'' 4)"

definition ErrNotFound :: error where
  "ErrNotFound = fst (New ''entity not found'' 5)"

definition ErrConflict :: error where
  "ErrConflict = fst (New ''conflict request'' 6)"

definition ErrPreconditionFailed :: error where
  "ErrPreconditionFailed = fst (New ''precondition failed'' 7)"

definition ErrValidation :: error where
  "ErrValidation = fst (New ''validation failed'' 8)"

definition ErrInternalServerError :: error where
  "ErrInternalServerError = fst (New ''internal server error'' 9)"

text \<open>
  The list of a \<open>case\<close> of an expression-less \<open>switch\<close> is evaluated from left to right
  up to the first expression that is true.
\<close>

fun is_any :: "error \<Rightarrow> error list \<Rightarrow> panic + bool" where
  "is_any err [] = Inr False"
| "is_any err (target # targets) =
     (case Is err target of
        Inl p \<Rightarrow> Inl p
      | Inr matched \<Rightarrow> if matched then Inr True else is_any err targets)"

definition predefined :: "error list" where
  "predefined =
     [ErrBadRequest, ErrUnauthorized, ErrRegistrationRequired, ErrPaymentError,
      ErrForbiddenAction, ErrNotFound, ErrConflict, ErrPreconditionFailed,
      ErrValidation, ErrInternalServerError]"

text \<open>
  \<open>GetOriginalPredefinedError\<close>: the loop, from \<open>err\<close> and \<open>predefinedErr\<close>.
  \<^verbatim>\<open>
  var predefinedErr = e.error
  for err := Unwrap(e.error); err != nil; err = Unwrap(err) {
      switch {
      case Is(err, ErrBadRequest), ..., Is(err, ErrInternalServerError):
          predefinedErr = err
      default:
          return predefinedErr
      }
  }
  return predefinedErr
  \<close>
\<close>

function predefined_loop :: "error \<Rightarrow> error \<Rightarrow> panic + error" where
  "predefined_loop err predefinedErr =
     (if err = nil then Inr predefinedErr
      else (case is_any err predefined of
              Inl p \<Rightarrow> Inl p
            | Inr matched \<Rightarrow>
                if matched then
                  (case Unwrap err of
                     Inl p \<Rightarrow> Inl p
                   | Inr next_err \<Rightarrow> predefined_loop next_err err)
                else Inr predefinedErr))"
  by pat_completeness auto
termination
proof (relation "measure (\<lambda>(err, predefinedErr). chain_length err)")
  show "wf (measure (\<lambda>(err, predefinedErr). chain_length err))" by simp
next
  fix err predefinedErr next_err :: error
  assume "err \<noteq> nil" and "Unwrap err = Inr next_err"
  then have "chain_length next_err < chain_length err"
    by (induction err rule: chain_length.induct) auto
  then show "((next_err, err), err, predefinedErr)
      \<in> measure (\<lambda>(err, predefinedErr). chain_length err)"
    by simp
qed

declare predefined_loop.simps [simp del]

fun Error_GetOriginalPredefinedError :: "ErrorP \<Rightarrow> panic + error" where
  "Error_GetOriginalPredefinedError NilP = Inl NilDereference"
| "Error_GetOriginalPredefinedError (Ptr a d c st) =
     (case Unwrap c of
        Inl p \<Rightarrow> Inl p
      | Inr first \<Rightarrow> predefined_loop first c)"

section \<open>Notions used in the statements\<close>

text \<open>\<open>errors.Unwrap\<close> applied \<open>n\<close> times.\<close>

fun unwrapN :: "nat \<Rightarrow> error \<Rightarrow> panic + error" where
  "unwrapN 0 err = Inr err"
| "unwrapN (Suc n) err =
     (case Unwrap err of
        Inl p \<Rightarrow> Inl p
      | Inr next_err \<Rightarrow> unwrapN n next_err)"

text \<open>
  A call of \<open>Wrap\<close> or of \<open>Wrapf\<close> with its arguments other than the error, the stack of
  the calling goroutine among them; \<open>wrap_all\<close> applies a list of such calls to an error,
  the head of the list last (it is the outermost wrapper).
\<close>

datatype wrapper =
    ByWrap string "uintptr list"
  | ByWrapf string "any list" "uintptr list"

fun wrap_with ::
  "(string \<Rightarrow> any list \<Rightarrow> string) \<Rightarrow> wrapper \<Rightarrow> error \<Rightarrow> addr \<Rightarrow> error \<times> addr" where
  "wrap_with Sprintf (ByWrap description goroutine) err h = Wrap err description goroutine h"
| "wrap_with Sprintf (ByWrapf format args goroutine) err h =
     Wrapf Sprintf err format args goroutine h"

fun wrap_all ::
  "(string \<Rightarrow> any list \<Rightarrow> string) \<Rightarrow> wrapper list \<Rightarrow> error \<Rightarrow> addr \<Rightarrow> error \<times> addr" where
  "wrap_all Sprintf [] err h = (err, h)"
| "wrap_all Sprintf (w # ws) err h =
     (case wrap_all Sprintf ws err h of
        (wrapped, h') \<Rightarrow> wrap_with Sprintf w wrapped h')"

text \<open>The value, when it is a non-nil pointer, points to an allocation made before \<open>h\<close>.\<close>

fun allocated_below :: "addr \<Rightarrow> error \<Rightarrow> bool" where
  "allocated_below h nil = True"
| "allocated_below h (ErrorString a s) = (a < h)"
| "allocated_below h (WrapError a msg e) = (a < h)"
| "allocated_below h (OfError NilP) = True"
| "allocated_below h (OfError (Ptr a d c st)) = (a < h)"

text \<open>No link of the chain is a nil \<open>*Error\<close> stored in a non-nil interface.\<close>

fun no_nil_pointer :: "error \<Rightarrow> bool" where
  "no_nil_pointer nil = True"
| "no_nil_pointer (ErrorString a s) = True"
| "no_nil_pointer (WrapError a msg e) = no_nil_pointer e"
| "no_nil_pointer (OfError NilP) = False"
| "no_nil_pointer (OfError (Ptr a d c st)) = no_nil_pointer c"

text \<open>
  The deepest entry of a cause chain, in the words of the specification: unwrap
  repeatedly until there is no further cause.
\<close>

fun deepest :: "error \<Rightarrow> error" where
  "deepest (WrapError a msg e) = (if e = nil then WrapError a msg e else deepest e)"
| "deepest (OfError (Ptr a d c st)) =
     (if c = nil then OfError (Ptr a d c st) else deepest c)"
| "deepest err = err"

text \<open>
  An instance of the parameter \<open>Sprintf\<close> for concrete scenarios. It agrees with
  \<open>fmt.Sprintf\<close> on the formats in which every \<open>%\<close> starts a plain \<open>%d\<close>, given
  exactly one integer operand for each of them; it is not a model of \<open>fmt.Sprintf\<close> on
  other formats or operands, where it copies the text of the format.
\<close>

fun Sprintf_d :: "string \<Rightarrow> any list \<Rightarrow> string" where
  "Sprintf_d [] args = []"
| "Sprintf_d [c] args = [c]"
| "Sprintf_d (c # v # format) args =
     (if c = CHR ''%'' \<and> v = CHR ''d''
      then (case args of
              AnyInt i # rest \<Rightarrow> itoa i @ Sprintf_d format rest
            | _ \<Rightarrow> c # Sprintf_d (v # format) args)
      else c # Sprintf_d (v # format) args)"

section \<open>Rendering and wrapping\<close>

text \<open>
  Claim C1. For every \<open>Error\<close> value, \<open>Error()\<close> returns exactly the description when the
  wrapped cause is nil, and the description, \<open>": "\<close> and the cause's message when the
  cause is not nil (where the cause's \<open>Error()\<close> panics, so does this one). In particular,
  for every non-nil \<open>err\<close> and every description, \<open>Wrap(err, d).Unwrap()\<close> is \<open>err\<close> and
  \<open>Wrap(err, d).Error()\<close> is \<open>d + ": " + err.Error()\<close>.
\<close>

theorem Error_renders_description_and_cause:
  "Error_Error (Ptr a d nil st) = Inr d
   \<and> (c \<noteq> nil \<longrightarrow>
        Error_Error (Ptr a d c st) = map_sum id (\<lambda>m. d @ '': '' @ m) (error_Error c))
   \<and> (err \<noteq> nil \<longrightarrow>
        Unwrap (fst (Wrap err d' goroutine h)) = Inr err
        \<and> error_Error (fst (Wrap err d' goroutine h))
            = map_sum id (\<lambda>m. d' @ '': '' @ m) (error_Error err))"
  by (auto simp: Wrap_def split: sum.splits)

theorem Error_renders_description_and_cause_witness:
  "ErrorString 10 ''db failure'' \<noteq> nil
   \<and> Error_Error (Ptr 11 ''reading config'' (ErrorString 10 ''db failure'') None)
       = Inr ''reading config: db failure''
   \<and> fst (New ''db failure'' 10) \<noteq> nil
   \<and> Unwrap (fst (Wrap (fst (New ''db failure'' 10)) ''reading config'' [] 11))
       = Inr (fst (New ''db failure'' 10))
   \<and> error_Error (fst (Wrap (fst (New ''db failure'' 10)) ''reading config'' [] 11))
       = Inr ''reading config: db failure''"
  using Error_renders_description_and_cause
    [of 11 "''reading config''" None "ErrorString 10 ''db failure''"
      "fst (New ''db failure'' 10)" "''reading config''" "[]" 11]
  by (simp add: New_def)

text \<open>
  Claim C2. Each of \<open>Wrap\<close>, \<open>Wrapf\<close>, \<open>WrapWithCustomErr\<close>, \<open>WrapfWithCustomErr\<close> and
  \<open>AddCustomCallStack\<close> returns nil when its first error argument is nil, whatever the
  other arguments are, and allocates nothing: no wrapper is built around a nil error.
\<close>

theorem wrap_family_nil:
  "Wrap nil description goroutine h = (nil, h)
   \<and> Wrapf Sprintf nil format args goroutine h = (nil, h)
   \<and> WrapWithCustomErr nil wrappingErr goroutine h = (nil, h)
   \<and> WrapfWithCustomErr Sprintf nil wrappingErr format args goroutine h = (nil, h)
   \<and> AddCustomCallStack nil callStack h = Inr (nil, h)"
  by (simp add: Wrap_def Wrapf_def WrapWithCustomErr_def WrapfWithCustomErr_def
      AddCustomCallStack_def)

text \<open>
  Claim C9. \<open>GetCallStack()\<close> called through the nil \<open>*Error\<close> returns the nil slice and
  does not dereference the receiver: the same result as for an \<open>Error\<close> without a
  captured stack.
\<close>

theorem GetCallStack_nil_receiver:
  "Error_GetCallStack CallersFrames NilP = NilSlice
   \<and> Error_GetCallStack CallersFrames NilP
       = Error_GetCallStack CallersFrames (Ptr a d c None)"
  by simp

text \<open>
  Claim C10. The methods \<open>(*Error).Wrap(err)\<close> and \<open>(*Error).Wrapf(format, err)\<close> return
  nil when \<open>err\<close> is nil, and also whenever the receiver's \<open>Description\<close> is the empty
  string, whatever \<open>err\<close> is: the error to be wrapped is dropped.
\<close>

theorem method_Wrap_empty_description:
  "Error_Wrap e nil goroutine h = Inr (nil, h)
   \<and> Error_Wrapf Errorf e format nil goroutine h = Inr (nil, h)
   \<and> Error_Wrap (Ptr a [] c st) err goroutine h = Inr (nil, h)
   \<and> Error_Wrapf Errorf (Ptr a [] c st) format err goroutine h = Inr (nil, h)"
  by (simp add: Error_Wrap_def Error_Wrapf_def)

section \<open>Traversals of a chain\<close>

text \<open>
  Claim C3. In a chain \<open>A \<rightarrow> B \<rightarrow> C\<close> in which \<open>A\<close> and \<open>C\<close> are \<open>Error\<close> values with a
  captured stack and \<open>B\<close> is not (it is a \<open>*fmt.wrapError\<close>, or an \<open>Error\<close> without a
  stack), \<open>FindOriginalErrorWithStack(A)\<close> returns \<open>C\<close>, the innermost one, and
  \<open>FindFirstErrorWithStack(A)\<close> returns \<open>A\<close>. On nil both return nil.
\<close>

theorem find_errors_with_stack:
  assumes "C = OfError (Ptr ac dc nil (Some sc))"
    and "B = WrapError ab mb C \<or> B = OfError (Ptr ab db C None)"
    and "A = OfError (Ptr aa da B (Some sa))"
  shows "FindOriginalErrorWithStack CallersFrames A = Inr (Ptr ac dc nil (Some sc))
    \<and> FindFirstErrorWithStack A = Inr A
    \<and> FindOriginalErrorWithStack CallersFrames nil = Inr NilP
    \<and> FindFirstErrorWithStack nil = Inr nil"
  using assms
  by (auto simp: FindOriginalErrorWithStack_def original_with_stack_loop.simps
      FindFirstErrorWithStack.simps As_def)

theorem find_errors_with_stack_witness:
  "FindOriginalErrorWithStack (\<lambda>pcs. [])
     (OfError (Ptr 12 ''load'' (WrapError 11 ''parse: eof''
        (OfError (Ptr 10 ''eof'' nil (Some [7])))) (Some [8])))
     = Inr (Ptr 10 ''eof'' nil (Some [7]))
   \<and> FindFirstErrorWithStack
     (OfError (Ptr 12 ''load'' (WrapError 11 ''parse: eof''
        (OfError (Ptr 10 ''eof'' nil (Some [7])))) (Some [8])))
     = Inr (OfError (Ptr 12 ''load'' (WrapError 11 ''parse: eof''
        (OfError (Ptr 10 ''eof'' nil (Some [7])))) (Some [8])))"
  using find_errors_with_stack
    [of "OfError (Ptr 10 ''eof'' nil (Some [7]))" 10 "''eof''" "[7]"
      "WrapError 11 ''parse: eof'' (OfError (Ptr 10 ''eof'' nil (Some [7])))"
      11 "''parse: eof''" "[]"
      "OfError (Ptr 12 ''load'' (WrapError 11 ''parse: eof''
        (OfError (Ptr 10 ''eof'' nil (Some [7])))) (Some [8]))"
      12 "''load''" "[8]" "\<lambda>pcs. []"]
  by simp

section \<open>Wrapping with a predefined error\<close>

lemma is_any_ErrNotFound: "is_any ErrNotFound predefined = Inr True"
  by (simp add: predefined_def Is_def ErrBadRequest_def ErrUnauthorized_def
      ErrRegistrationRequired_def ErrPaymentError_def ErrForbiddenAction_def
      ErrNotFound_def New_def)

text \<open>
  Claim C4. For every non-nil \<open>err\<close>, the result of \<open>WrapWithCustomErr(err, ErrNotFound)\<close>
  satisfies \<open>Is(result, ErrNotFound)\<close> and its \<open>GetOriginalPredefinedError()\<close> is
  \<open>ErrNotFound\<close>; the result of
  \<open>WrapfWithCustomErr(sqlErr, ErrNotFound, "user %d missing", 42)\<close> satisfies
  \<open>Is(result, ErrNotFound)\<close> and its \<open>Error()\<close> begins with \<open>"user 42 missing: "\<close>, the
  description being what \<open>fmt.Sprintf\<close> makes of the format and the operand.
\<close>

theorem custom_err_keeps_sentinel:
  assumes "err \<noteq> nil" and "sqlErr \<noteq> nil"
    and "Sprintf ''user %d missing'' [AnyInt 42] = ''user 42 missing''"
  shows "Is (fst (WrapWithCustomErr err ErrNotFound goroutine h)) ErrNotFound = Inr True
    \<and> (\<exists>result. fst (WrapWithCustomErr err ErrNotFound goroutine h) = OfError result
          \<and> Error_GetOriginalPredefinedError result = Inr ErrNotFound)
    \<and> Is (fst (WrapfWithCustomErr Sprintf sqlErr ErrNotFound ''user %d missing'' [AnyInt 42]
              goroutine' h')) ErrNotFound = Inr True
    \<and> (\<exists>rest. error_Error (fst (WrapfWithCustomErr Sprintf sqlErr ErrNotFound
              ''user %d missing'' [AnyInt 42] goroutine' h'))
          = Inr (''user 42 missing: '' @ rest))"
proof -
  have nf: "ErrNotFound = OfError (Ptr 5 ''entity not found'' nil None)"
    by (simp add: ErrNotFound_def New_def)
  have 1: "Is (fst (WrapWithCustomErr err ErrNotFound goroutine h)) ErrNotFound = Inr True"
    using assms(1) by (simp add: WrapWithCustomErr_def Errorf_w_v_def Is_def nf)
  have 2: "\<exists>result. fst (WrapWithCustomErr err ErrNotFound goroutine h) = OfError result
          \<and> Error_GetOriginalPredefinedError result = Inr ErrNotFound"
    using assms(1) is_any_ErrNotFound
    by (simp add: WrapWithCustomErr_def Errorf_w_v_def predefined_loop.simps nf)
  have 3: "Is (fst (WrapfWithCustomErr Sprintf sqlErr ErrNotFound ''user %d missing''
              [AnyInt 42] goroutine' h')) ErrNotFound = Inr True"
    using assms(2) by (simp add: WrapfWithCustomErr_def Errorf_w_v_def Is_def nf)
  have 4: "\<exists>rest. error_Error (fst (WrapfWithCustomErr Sprintf sqlErr ErrNotFound
              ''user %d missing'' [AnyInt 42] goroutine' h'))
          = Inr (''user 42 missing: '' @ rest)"
    using assms(2,3) by (simp add: WrapfWithCustomErr_def Errorf_w_v_def nf)
  from 1 2 3 4 show ?thesis by blast
qed

theorem custom_err_keeps_sentinel_witness:
  "ErrorString 10 ''sql: no rows'' \<noteq> nil
   \<and> Sprintf_d ''user %d missing'' [AnyInt 42] = ''user 42 missing''
   \<and> Is (fst (WrapWithCustomErr (ErrorString 10 ''sql: no rows'') ErrNotFound [] 11))
        ErrNotFound = Inr True
   \<and> Is (fst (WrapfWithCustomErr Sprintf_d (ErrorString 10 ''sql: no rows'') ErrNotFound
            ''user %d missing'' [AnyInt 42] [] 11)) ErrNotFound = Inr True
   \<and> error_Error (fst (WrapfWithCustomErr Sprintf_d (ErrorString 10 ''sql: no rows'')
            ErrNotFound ''user %d missing'' [AnyInt 42] [] 11))
       = Inr ''user 42 missing: entity not found: sql: no rows''"
proof -
  have e: "ErrorString 10 ''sql: no rows'' \<noteq> nil" by simp
  have f: "Sprintf_d ''user %d missing'' [AnyInt 42] = ''user 42 missing''"
    by (simp add: itoa_def digits.simps)
  have m: "error_Error (fst (WrapfWithCustomErr Sprintf_d (ErrorString 10 ''sql: no rows'')
            ErrNotFound ''user %d missing'' [AnyInt 42] [] 11))
       = Inr ''user 42 missing: entity not found: sql: no rows''"
    by (simp add: WrapfWithCustomErr_def Errorf_w_v_def ErrNotFound_def New_def
        itoa_def digits.simps)
  from custom_err_keeps_sentinel
    [where Sprintf = Sprintf_d and err = "ErrorString 10 ''sql: no rows''"
      and sqlErr = "ErrorString 10 ''sql: no rows''" and goroutine = "[]" and h = 11
      and goroutine' = "[]" and h' = 11, OF e e f] e f m
  show ?thesis by blast
qed

section \<open>Messages\<close>

lemma Error_returns:
  "err \<noteq> nil \<Longrightarrow> no_nil_pointer err \<Longrightarrow> \<exists>m. error_Error err = Inr m"
  "no_nil_pointer (OfError e) \<Longrightarrow> \<exists>m. Error_Error e = Inr m"
  by (induction err and e rule: error_Error_Error_Error.induct) auto

lemma deepest_leaf:
  "err \<noteq> nil \<Longrightarrow> no_nil_pointer err \<Longrightarrow>
     deepest err \<noteq> nil \<and> Unwrap (deepest err) = Inr nil
     \<and> (\<exists>m. error_Error (deepest err) = Inr m)"
  by (induction err rule: deepest.induct) auto

lemma original_loop_deepest:
  "no_nil_pointer err \<Longrightarrow>
     original_loop err originalErr = Inr (if err = nil then originalErr else deepest err)"
proof (induction err arbitrary: originalErr rule: chain_length.induct)
  case (4)
  then show ?case by simp
qed (simp_all add: original_loop.simps)

lemma GetOriginalErrorMessage_of_cause:
  assumes "c \<noteq> nil" and "no_nil_pointer c"
  shows "\<exists>m. error_Error (deepest c) = Inr m
    \<and> Error_GetOriginalErrorMessage (Ptr a d c st)
        = Inr (if d = [] then m else d @ '': '' @ m)"
proof -
  from deepest_leaf [OF assms] obtain m where m: "error_Error (deepest c) = Inr m"
    by blast
  obtain first where first: "Unwrap c = Inr first" and nn: "no_nil_pointer first"
    and d: "first \<noteq> nil \<Longrightarrow> deepest c = deepest first"
    and l: "first = nil \<Longrightarrow> deepest c = c"
    using assms by (cases c rule: chain_length.cases) auto
  show ?thesis
    using m first d l original_loop_deepest [OF nn, of nil]
    by (cases "first = nil") auto
qed

text \<open>
  Claim C5. \<open>GetOriginalErrorMessage\<close> is to behave like \<open>Error()\<close> when there is no
  cause. On an \<open>Error\<close> without a cause, such as the result of \<open>New\<close>, the source reads
  \<open>e.error.Error()\<close> with \<open>e.error\<close> nil on both branches, and panics, whatever the
  description is.
\<close>

theorem GetOriginalErrorMessage_no_cause_panics:
  "Error_GetOriginalErrorMessage (Ptr a d nil st) = Inl NilDereference
   \<and> New ''boom'' h = (OfError (Ptr h ''boom'' nil None), Suc h)
   \<and> Error_Error (Ptr h ''boom'' nil None) = Inr ''boom''"
  by (simp add: original_loop.simps New_def)

text \<open>
  Claim C6. \<open>Message()\<close> is to have a result when the description is empty and the cause
  is nil. The source calls \<open>e.error.Error()\<close> on the nil interface there, and panics;
  \<open>New("")\<close> builds such a value.
\<close>

theorem Message_empty_without_cause_panics:
  "Error_Message (Ptr a [] nil st) = Inl NilDereference
   \<and> New [] h = (OfError (Ptr h [] nil None), Suc h)"
  by (simp add: New_def)

lemma Message_otherwise:
  "d \<noteq> [] \<Longrightarrow> Error_Message (Ptr a d c st) = Inr d"
  "Error_Message (Ptr a [] c st) = error_Error c"
  by simp_all

section \<open>The call stack\<close>




section \<open>Wrapping and unwrapping\<close>

text \<open>
  Claim C8, as stated, fails for \<open>WrapWithCustomErr\<close> (and \<open>WrapfWithCustomErr\<close>): the
  result unwraps to the error built by \<open>fmt.Errorf("%w: %v", wrappingErr, originalErr)\<close>,
  that one to \<open>wrappingErr\<close>, and that one to nil. The original error is only part of the
  message.
\<close>

theorem unwrap_custom_err_counterexample:
  "unwrapN 1 (fst (WrapWithCustomErr (ErrorString 10 ''sql: no rows'') ErrNotFound [] 11))
     = Inr (WrapError 11 ''entity not found: sql: no rows'' ErrNotFound)
   \<and> \<not> iface_eq (WrapError 11 ''entity not found: sql: no rows'' ErrNotFound)
         (ErrorString 10 ''sql: no rows'')
   \<and> unwrapN 2 (fst (WrapWithCustomErr (ErrorString 10 ''sql: no rows'') ErrNotFound [] 11))
     = Inr ErrNotFound
   \<and> unwrapN 3 (fst (WrapWithCustomErr (ErrorString 10 ''sql: no rows'') ErrNotFound [] 11))
     = Inr nil"
  by (simp add: WrapWithCustomErr_def Errorf_w_v_def ErrNotFound_def New_def
      eval_nat_numeral)

lemma wrap_with_shape:
  assumes "err \<noteq> nil" and "wrap_with Sprintf w err h = (wrapped, h')"
  shows "\<exists>d st. wrapped = OfError (Ptr h d err st) \<and> h' = Suc h"
  using assms by (cases w) (auto simp: Wrap_def Wrapf_def)

lemma wrap_all_chain:
  assumes "e \<noteq> nil" and "allocated_below h e"
    and "wrap_all Sprintf ws e h = (wrapped, h')"
  shows "wrapped \<noteq> nil \<and> h \<le> h'
    \<and> unwrapN (length ws) wrapped = Inr e
    \<and> (\<forall>k < length ws. \<exists>x. unwrapN k wrapped = Inr x \<and> \<not> allocated_below h x)"
  using assms(3)
proof (induction ws arbitrary: wrapped h')
  case Nil
  with assms(1) show ?case by simp
next
  case (Cons w ws)
  obtain inner h0 where inner: "wrap_all Sprintf ws e h = (inner, h0)"
    by (cases "wrap_all Sprintf ws e h")
  with Cons.prems have step: "wrap_with Sprintf w inner h0 = (wrapped, h')" by simp
  from Cons.IH [OF inner] have nonnil: "inner \<noteq> nil" and le: "h \<le> h0"
    and returns: "unwrapN (length ws) inner = Inr e"
    and fewer: "\<forall>k < length ws. \<exists>x. unwrapN k inner = Inr x \<and> \<not> allocated_below h x"
    by simp_all
  from wrap_with_shape [OF nonnil step] obtain d st
    where shape: "wrapped = OfError (Ptr h0 d inner st)" and h': "h' = Suc h0"
    by blast
  have "\<exists>x. unwrapN k wrapped = Inr x \<and> \<not> allocated_below h x"
    if "k < length (w # ws)" for k
  proof (cases k)
    case 0
    with shape le show ?thesis by simp
  next
    case (Suc j)
    with that have "j < length ws" by simp
    with fewer Suc shape show ?thesis by simp
  qed
  with shape h' le returns show ?case by simp
qed

lemma not_below_not_eq:
  "allocated_below h e \<Longrightarrow> \<not> allocated_below h x \<Longrightarrow> \<not> iface_eq x e"
  by (induction x e rule: iface_eq.induct) auto

text \<open>
  Claim C8, amended. For every non-nil error \<open>e\<close>, allocated before the wrappers are, and
  every \<open>n \<ge> 1\<close>: wrapping \<open>e\<close> \<open>n\<close> times with \<open>Wrap\<close> or \<open>Wrapf\<close> and unwrapping the result
  \<open>n\<close> times yields \<open>e\<close>, and unwrapping it fewer times yields a value that is not \<open>e\<close>.
\<close>

theorem wrap_unwrap_roundtrip:
  assumes "e \<noteq> nil" and "ws \<noteq> []" and "allocated_below h e"
  shows "unwrapN (length ws) (fst (wrap_all Sprintf ws e h)) = Inr e
    \<and> (\<forall>k < length ws.
         \<exists>x. unwrapN k (fst (wrap_all Sprintf ws e h)) = Inr x \<and> \<not> iface_eq x e)"
  using wrap_all_chain [OF assms(1,3), of Sprintf ws "fst (wrap_all Sprintf ws e h)"
      "snd (wrap_all Sprintf ws e h)"] not_below_not_eq [OF assms(3)]
  by auto

theorem wrap_unwrap_roundtrip_witness:
  "ErrorString 10 ''db failure'' \<noteq> nil
   \<and> [ByWrap ''reading config'' [], ByWrapf ''attempt %d'' [AnyInt 2] []] \<noteq> []
   \<and> allocated_below 11 (ErrorString 10 ''db failure'')
   \<and> unwrapN 2 (fst (wrap_all Sprintf_d
        [ByWrap ''reading config'' [], ByWrapf ''attempt %d'' [AnyInt 2] []]
        (ErrorString 10 ''db failure'') 11)) = Inr (ErrorString 10 ''db failure'')
   \<and> (\<exists>x. unwrapN 1 (fst (wrap_all Sprintf_d
        [ByWrap ''reading config'' [], ByWrapf ''attempt %d'' [AnyInt 2] []]
        (ErrorString 10 ''db failure'') 11)) = Inr x
         \<and> \<not> iface_eq x (ErrorString 10 ''db failure''))"
proof -
  have e: "ErrorString 10 ''db failure'' \<noteq> nil" by simp
  have w: "[ByWrap ''reading config'' [], ByWrapf ''attempt %d'' [AnyInt 2] []] \<noteq> []"
    by simp
  have b: "allocated_below 11 (ErrorString 10 ''db failure'')" by simp
  have len: "length [ByWrap ''reading config'' [], ByWrapf ''attempt %d'' [AnyInt 2] []] = 2"
    by simp
  note roundtrip = wrap_unwrap_roundtrip [OF e w b, of Sprintf_d, unfolded len]
  from roundtrip have all: "unwrapN 2 (fst (wrap_all Sprintf_d
        [ByWrap ''reading config'' [], ByWrapf ''attempt %d'' [AnyInt 2] []]
        (ErrorString 10 ''db failure'') 11)) = Inr (ErrorString 10 ''db failure'')"
    by (rule conjunct1)
  have "(1::nat) < 2" by simp
  with roundtrip have one: "\<exists>x. unwrapN 1 (fst (wrap_all Sprintf_d
        [ByWrap ''reading config'' [], ByWrapf ''attempt %d'' [AnyInt 2] []]
        (ErrorString 10 ''db failure'') 11)) = Inr x
         \<and> \<not> iface_eq x (ErrorString 10 ''db failure'')"
    by blast
  from e w b all one show ?thesis by blast
qed

end
